theory Spec2Isabelle
  imports Main
begin

section \<open>Shared state of the game (the globals of main.cpp)\<close>

text \<open>
  The program writes to the console under \<open>cout_mutex\<close>. The console is modelled as the
  list of the lines that carry data, one constructor per kind of line; the separator
  lines and the fixed banner texts are left out.
  \<^item> \<open>Inicio n c\<close>: "Iniciando rodada com n jogadores e c cadeiras."
  \<^item> \<open>MusicaParou\<close>: "A musica parou! Os jogadores estao tentando se sentar..."
  \<^item> \<open>CadeiraOcupada k p\<close>: "[Cadeira k]: Ocupada por Pp"
  \<^item> \<open>Eliminado p\<close>: "Jogador Pp nao conseguiu uma cadeira e foi eliminado!"
  \<^item> \<open>Vencedor p\<close>: "Vencedor: Jogador Pp! Parabens!"
\<close>

datatype evento =
    Inicio nat int
  | MusicaParou
  | CadeiraOcupada nat int
  | Eliminado int
  | Vencedor int

text \<open>
  The global variables, together with the two private fields of the single
  \<open>JogoDasCadeiras\<close> object (\<open>num_jogadores\<close>, \<open>cadeiras\<close>).

  \<open>cadeira_sem\<close> points to a \<open>std::counting_semaphore\<close>; the semaphore is modelled by
  its internal counter. \<open>delete cadeira_sem; cadeira_sem = new ...(c)\<close> replaces the
  counter by \<open>c\<close>. The mutexes only delimit the atomic steps and carry no state; the
  condition variable \<open>music_cv\<close> carries none either (see \<open>passo_jogador\<close>).
\<close>

record estado =
  cadeira_sem :: int
  musica_parada :: bool
  jogo_ativo :: bool
  jogadores_ativos :: "int list"
  cadeiras_ocupadas :: "(int \<times> int) list"
  num_jogadores :: int
  cadeiras :: int
  saida :: "evento list"

text \<open>The fields of a \<open>Jogador\<close> object (the reference \<open>jogo\<close> is the shared state).\<close>

record jogador =
  id_jogador :: int
  eliminado :: bool

subsection \<open>The counting semaphore of the standard library\<close>

text \<open>
  \<open>try_acquire\<close> never blocks and tells whether it has taken a permit. It takes none when
  the counter is \<open>0\<close>. The library also allows it to take none although the counter is
  positive (a spurious failure, under contention): the argument \<open>falha\<close> says whether
  this call fails so. Otherwise it decrements the counter. The implementations compare
  the counter with \<open>0\<close> only: on the counter \<open>-1\<close>, which lines 183 and 184 pass to the
  constructor for an empty active list against its precondition, the call decrements and
  tells that it has taken a permit.

  \<open>release n\<close> adds \<open>n\<close> to the counter. (The standard leaves \<open>release\<close> beyond \<open>max()\<close>
  undefined; the model adds all the same, as the implementations do.)
\<close>

definition try_acquire :: "bool \<Rightarrow> int \<Rightarrow> bool \<times> int" where
  "try_acquire falha c = (if c = 0 \<or> falha then (False, c) else (True, c - 1))"

definition release :: "int \<Rightarrow> int \<Rightarrow> int" where
  "release n c = c + n"

subsection \<open>Start-up\<close>

text \<open>
  \<open>NUM_JOGADORES\<close> is a compile-time constant of the program. The definitions that use
  it take it as the parameter \<open>nj\<close>, so that statements about any number of
  participants can be made; the program itself runs with \<open>NUM_JOGADORES\<close>.
\<close>

definition NUM_JOGADORES :: int where
  "NUM_JOGADORES = 4"

text \<open>
  The initialisers of the global variables (lines 14 to 23). The two fields of the game
  object get their values from the constructor.
\<close>

definition globais :: "int \<Rightarrow> estado" where
  "globais nj =
     \<lparr> cadeira_sem = nj - 1, musica_parada = False, jogo_ativo = True,
       jogadores_ativos = [], cadeiras_ocupadas = [],
       num_jogadores = 0, cadeiras = 0, saida = [] \<rparr>"

text \<open>The constructor: pushes the ids \<open>1 .. num\<close> onto \<open>jogadores_ativos\<close>.\<close>

definition JogoDasCadeiras :: "int \<Rightarrow> estado \<Rightarrow> estado" where
  "JogoDasCadeiras num s =
     s\<lparr> num_jogadores := num, cadeiras := num - 1,
        jogadores_ativos := jogadores_ativos s @ [1..num] \<rparr>"

section \<open>The methods of JogoDasCadeiras\<close>

text \<open>
  \<open>jogadores_ativos.size() - 1\<close> is computed in \<open>size_t\<close> and stored in an \<open>int\<close>: for the
  empty vector the subtraction wraps and the conversion yields \<open>-1\<close>, which is what
  \<open>int (length xs) - 1\<close> gives.
\<close>

definition iniciar_rodada :: "estado \<Rightarrow> estado" where
  "iniciar_rodada s =
     (let s1 = s\<lparr> cadeiras := int (length (jogadores_ativos s)) - 1 \<rparr>;
          s2 = s1\<lparr> cadeiras_ocupadas := [] \<rparr>
      in s2\<lparr> saida := saida s2 @ [Inicio (length (jogadores_ativos s2)) (cadeiras s2)] \<rparr>)"

definition parar_musica :: "estado \<Rightarrow> estado" where
  "parar_musica s = s\<lparr> saida := saida s @ [MusicaParou], musica_parada := True \<rparr>"

text \<open>The erase-remove idiom deletes every occurrence of the id.\<close>

definition eliminar_jogador :: "int \<Rightarrow> estado \<Rightarrow> estado" where
  "eliminar_jogador jogador_id s =
     s\<lparr> jogadores_ativos := removeAll jogador_id (jogadores_ativos s) \<rparr>"

definition exibir_resultado_rodada :: "int \<Rightarrow> estado \<Rightarrow> estado" where
  "exibir_resultado_rodada eliminado_id s =
     s\<lparr> saida := saida s
          @ map (\<lambda>i. CadeiraOcupada (i + 1) (fst (cadeiras_ocupadas s ! i)))
              [0 ..< length (cadeiras_ocupadas s)]
          @ [Eliminado eliminado_id] \<rparr>"

section \<open>The methods of Jogador\<close>

text \<open>
  \<open>tentar_ocupar_cadeira\<close>, with the argument of the call of \<open>try_acquire\<close> it makes. The
  call (line 126) and the record of the seat under \<open>cadeira_mutex\<close> (lines 127 and 128) are
  taken together: the state in which the permit is taken and the seat is not yet
  recorded is not represented.
\<close>

definition tentar_ocupar_cadeira :: "bool \<Rightarrow> jogador \<Rightarrow> estado \<Rightarrow> jogador \<times> estado" where
  "tentar_ocupar_cadeira falha j s =
     (case try_acquire falha (cadeira_sem s) of
        (True, c) \<Rightarrow>
          (j, s\<lparr> cadeira_sem := c,
                 cadeiras_ocupadas := cadeiras_ocupadas s @ [(id_jogador j, id_jogador j)] \<rparr>)
      | (False, c) \<Rightarrow> (j\<lparr> eliminado := True \<rparr>, s\<lparr> cadeira_sem := c \<rparr>))"

definition verificar_eliminacao :: "jogador \<Rightarrow> estado \<Rightarrow> estado" where
  "verificar_eliminacao j s = (if eliminado j then eliminar_jogador (id_jogador j) s else s)"

section \<open>The methods of Coordenador\<close>

text \<open>
  The loop of \<open>liberar_threads_eliminadas\<close> over the active ids: the first id that is not
  among the seated ones is eliminated and ends the loop; \<open>eliminado_id\<close> keeps its
  initial value \<open>-1\<close> when the loop runs to the end.
\<close>

fun laco_eliminacao :: "int list \<Rightarrow> int list \<Rightarrow> estado \<Rightarrow> int \<times> estado" where
  "laco_eliminacao jogadores_sentados [] s = (- 1, s)"
| "laco_eliminacao jogadores_sentados (x # xs) s =
     (if x \<notin> set jogadores_sentados then (x, eliminar_jogador x s)
      else laco_eliminacao jogadores_sentados xs s)"

definition liberar_threads_eliminadas :: "int \<Rightarrow> estado \<Rightarrow> estado" where
  "liberar_threads_eliminadas nj s =
     (let jogadores_sentados = map fst (cadeiras_ocupadas s);
          (eliminado_id, s1) = laco_eliminacao jogadores_sentados (jogadores_ativos s) s;
          s2 = exibir_resultado_rodada eliminado_id s1
      in s2\<lparr> cadeira_sem := release nj (cadeira_sem s2) \<rparr>)"

text \<open>Lines 178 to 181 of \<open>iniciar_jogo\<close>: the music resumes (no notification is sent).\<close>

definition retomar_musica :: "estado \<Rightarrow> estado" where
  "retomar_musica s = s\<lparr> musica_parada := False \<rparr>"

text \<open>Lines 183 and 184: the semaphore is deleted and a new one is built.\<close>

definition recriar_semaforo :: "estado \<Rightarrow> estado" where
  "recriar_semaforo s = s\<lparr> cadeira_sem := int (length (jogadores_ativos s)) - 1 \<rparr>"

text \<open>Lines 188 and 189.\<close>

definition encerrar :: "estado \<Rightarrow> estado" where
  "encerrar s = s\<lparr> jogo_ativo := False \<rparr>"

text \<open>
  Lines 191 to 197: the winner is announced only when the vector is not empty. (The
  \<open>delete\<close> of line 199 frees the last semaphore; the model keeps its counter.)
\<close>

definition anunciar_vencedor :: "estado \<Rightarrow> estado" where
  "anunciar_vencedor s =
     (case jogadores_ativos s of
        [] \<Rightarrow> s
      | x # _ \<Rightarrow> s\<lparr> saida := saida s @ [Vencedor x] \<rparr>)"

section \<open>The threads\<close>

text \<open>
  Each thread is a program counter over the statements of its function; a step runs one
  statement atomically, a call of a method being one statement. The sleeps of the
  coordinator only influence the scheduler, which here is the list of threads given to
  \<open>executa\<close>: any thread that can take a step may be chosen.

  \<open>music_cv.wait(lock, pred)\<close> returns only in a state where \<open>pred\<close> holds and otherwise
  keeps the thread waiting, whatever notifications arrive: the step of a waiting player
  exists exactly when its predicate holds. (A thread that reaches the wait while the
  predicate holds does not sleep at all, and the C++ standard allows a sleeping thread
  to wake up and test the predicate at any time.)

  The statements of \<open>Jogador::joga\<close>:
  \<^item> \<open>J_while\<close>: the test of \<open>while (jogo_ativo)\<close> (line 141);
  \<^item> \<open>J_espera_parada\<close>: the wait for the music to stop (lines 142 to 145);
  \<^item> \<open>J_testa_ativo\<close>: \<open>if (!jogo_ativo) break;\<close> (line 147);
  \<^item> \<open>J_tentar\<close>: \<open>tentar_ocupar_cadeira()\<close> (line 149);
  \<^item> \<open>J_verificar\<close>: \<open>verificar_eliminacao()\<close> (line 150);
  \<^item> \<open>J_espera_tocando\<close>: the wait for the music to resume (lines 152 to 155);
  \<^item> \<open>J_fim\<close>: the function has returned.
\<close>

datatype pc_jogador =
    J_while
  | J_espera_parada
  | J_testa_ativo
  | J_tentar
  | J_verificar
  | J_espera_tocando
  | J_fim

fun passo_jogador ::
  "bool \<Rightarrow> pc_jogador \<Rightarrow> jogador \<Rightarrow> estado \<Rightarrow> (pc_jogador \<times> jogador \<times> estado) option" where
  "passo_jogador falha J_while j s =
     Some (if jogo_ativo s then J_espera_parada else J_fim, j, s)"
| "passo_jogador falha J_espera_parada j s =
     (if musica_parada s then Some (J_testa_ativo, j, s) else None)"
| "passo_jogador falha J_testa_ativo j s =
     Some (if \<not> jogo_ativo s then J_fim else J_tentar, j, s)"
| "passo_jogador falha J_tentar j s =
     (case tentar_ocupar_cadeira falha j s of (j', s') \<Rightarrow> Some (J_verificar, j', s'))"
| "passo_jogador falha J_verificar j s = Some (J_espera_tocando, j, verificar_eliminacao j s)"
| "passo_jogador falha J_espera_tocando j s =
     (if \<not> musica_parada s then Some (J_while, j, s) else None)"
| "passo_jogador falha J_fim j s = None"

text \<open>
  The statements of \<open>Coordenador::iniciar_jogo\<close>:
  \<^item> \<open>C_while\<close>: the test of the loop (line 171);
  \<^item> \<open>C_iniciar_rodada\<close>: \<open>jogo.iniciar_rodada()\<close> (line 172), followed by \<open>sleep_random\<close>;
  \<^item> \<open>C_parar_musica\<close>: \<open>jogo.parar_musica()\<close> (line 174), followed by the settle sleep;
  \<^item> \<open>C_liberar\<close>: \<open>liberar_threads_eliminadas()\<close> (line 176);
  \<^item> \<open>C_retomar\<close>: \<open>musica_parada = false\<close> (lines 178 to 181);
  \<^item> \<open>C_recriar\<close>: the new semaphore (lines 183 and 184), followed by a sleep;
  \<^item> \<open>C_encerrar\<close>: \<open>jogo_ativo = false\<close> and the notification (lines 188 and 189);
  \<^item> \<open>C_vencedor\<close>: the announcement of the winner (lines 191 to 197);
  \<^item> \<open>C_fim\<close>: the function has returned.
\<close>

datatype pc_coordenador =
    C_while
  | C_iniciar_rodada
  | C_parar_musica
  | C_liberar
  | C_retomar
  | C_recriar
  | C_encerrar
  | C_vencedor
  | C_fim

fun passo_coordenador :: "pc_coordenador \<Rightarrow> estado \<Rightarrow> (pc_coordenador \<times> estado) option" where
  "passo_coordenador C_while s =
     Some (if length (jogadores_ativos s) > 1 then C_iniciar_rodada else C_encerrar, s)"
| "passo_coordenador C_iniciar_rodada s = Some (C_parar_musica, iniciar_rodada s)"
| "passo_coordenador C_parar_musica s = Some (C_liberar, parar_musica s)"
| "passo_coordenador C_liberar s = Some (C_retomar, liberar_threads_eliminadas NUM_JOGADORES s)"
| "passo_coordenador C_retomar s = Some (C_recriar, retomar_musica s)"
| "passo_coordenador C_recriar s = Some (C_while, recriar_semaforo s)"
| "passo_coordenador C_encerrar s = Some (C_vencedor, encerrar s)"
| "passo_coordenador C_vencedor s = Some (C_fim, anunciar_vencedor s)"
| "passo_coordenador C_fim s = None"

text \<open>
  The whole program: the shared state, the player objects of \<open>main\<close> with the program
  counter of their threads (\<open>jogadores_objs[i]\<close> is \<open>jogs ! i\<close>), and the program counter
  of the coordinator thread.
\<close>

record sistema =
  glob :: estado
  jogs :: "(jogador \<times> pc_jogador) list"
  coord :: pc_coordenador

text \<open>
  The scheduler chooses the thread that takes the next step: the coordinator, or the
  thread of \<open>jogadores_objs[i]\<close>. \<open>Jogador_falha i\<close> is a step of that thread as well; if
  the step is the call of \<open>tentar_ocupar_cadeira\<close>, its \<open>try_acquire\<close> fails spuriously.
\<close>

datatype thread = Coordenador | Jogador nat | Jogador_falha nat

fun passo :: "thread \<Rightarrow> sistema \<Rightarrow> sistema option" where
  "passo Coordenador sys =
     (case passo_coordenador (coord sys) (glob sys) of
        None \<Rightarrow> None
      | Some (pc, s) \<Rightarrow> Some (sys\<lparr> glob := s, coord := pc \<rparr>))"
| "passo (Jogador i) sys =
     (if i < length (jogs sys) then
        (case passo_jogador False (snd (jogs sys ! i)) (fst (jogs sys ! i)) (glob sys) of
           None \<Rightarrow> None
         | Some (pc, j, s) \<Rightarrow> Some (sys\<lparr> glob := s, jogs := (jogs sys)[i := (j, pc)] \<rparr>))
      else None)"
| "passo (Jogador_falha i) sys =
     (if i < length (jogs sys) then
        (case passo_jogador True (snd (jogs sys ! i)) (fst (jogs sys ! i)) (glob sys) of
           None \<Rightarrow> None
         | Some (pc, j, s) \<Rightarrow> Some (sys\<lparr> glob := s, jogs := (jogs sys)[i := (j, pc)] \<rparr>))
      else None)"

text \<open>An execution follows a schedule; it stops with \<open>None\<close> at a thread that cannot move.\<close>

fun executa :: "thread list \<Rightarrow> sistema \<Rightarrow> sistema option" where
  "executa [] sys = Some sys"
| "executa (t # ts) sys =
     (case passo t sys of None \<Rightarrow> None | Some sys' \<Rightarrow> executa ts sys')"

text \<open>
  \<open>main\<close>: the game object, one player object per id (lines 237 to 240), all threads at
  their first statement.
\<close>

definition jogadores_objs :: "int \<Rightarrow> jogador list" where
  "jogadores_objs nj = map (\<lambda>i. \<lparr> id_jogador = i, eliminado = False \<rparr>) [1..nj]"

definition sistema_inicial :: sistema where
  "sistema_inicial =
     \<lparr> glob = JogoDasCadeiras NUM_JOGADORES (globais NUM_JOGADORES),
       jogs = map (\<lambda>j. (j, J_while)) (jogadores_objs NUM_JOGADORES),
       coord = C_while \<rparr>"

subsection \<open>Some schedules\<close>

text \<open>
  \<open>jogada i\<close>: player \<open>i\<close> leaves the wait for the stop, tests \<open>jogo_ativo\<close>, tries to sit
  and checks its elimination; it is then in front of the wait for the music to resume.
  \<open>volta i\<close>: player \<open>i\<close> leaves the wait for the music to resume and tests the loop
  condition.
\<close>

definition jogada :: "nat \<Rightarrow> thread list" where
  "jogada i = [Jogador i, Jogador i, Jogador i, Jogador i]"

definition volta :: "nat \<Rightarrow> thread list" where
  "volta i = [Jogador i, Jogador i]"

text \<open>
  The first round as the sleeps intend it: the four players reach the wait for the stop,
  the coordinator starts the round and stops the music, every player makes its attempt
  within the settle time. The coordinator is then about to call
  \<open>liberar_threads_eliminadas\<close>.
\<close>

definition escala_rodada1 :: "thread list" where
  "escala_rodada1 =
     [Jogador 0, Jogador 1, Jogador 2, Jogador 3, Coordenador, Coordenador, Coordenador]
     @ jogada 0 @ jogada 1 @ jogada 2 @ jogada 3"

text \<open>The same, and the coordinator goes on: resolution, resume, new semaphore, loop test,
  start of the second round.\<close>

definition escala_segue :: "thread list" where
  "escala_segue =
     escala_rodada1 @ [Coordenador, Coordenador, Coordenador, Coordenador, Coordenador]"

text \<open>
  Player 0 reaches the wait for the resume only after the coordinator has reset
  \<open>musica_parada\<close> (line 180), in each of the three rounds; the other players wait for the
  resume from the first round on. After the last round the coordinator ends the game and
  the three other players leave.
\<close>

definition escala_travada :: "thread list" where
  "escala_travada =
     escala_rodada1
     @ [Coordenador, Coordenador] @ volta 0
     @ [Coordenador, Coordenador, Coordenador, Coordenador] @ jogada 0
     @ [Coordenador, Coordenador] @ volta 0
     @ [Coordenador, Coordenador, Coordenador, Coordenador] @ jogada 0
     @ [Coordenador, Coordenador] @ volta 0
     @ [Coordenador, Coordenador, Coordenador, Coordenador]
     @ volta 1 @ volta 2 @ volta 3"

text \<open>
  After the first round all four players pass the wait for the resume once the
  coordinator has reset \<open>musica_parada\<close>, and all four make an attempt in the second round,
  the player eliminated in the first round first.
\<close>

definition escala_dupla :: "thread list" where
  "escala_dupla =
     escala_rodada1
     @ [Coordenador, Coordenador] @ volta 0 @ volta 1 @ volta 2 @ volta 3
     @ [Coordenador, Coordenador, Coordenador, Coordenador]
     @ jogada 3 @ jogada 0 @ jogada 1 @ jogada 2
     @ [Coordenador, Coordenador, Coordenador, Coordenador, Coordenador, Coordenador]
     @ volta 0 @ volta 1 @ volta 2 @ volta 3"

text \<open>
  In the first round player 0 has left the wait for the stop but makes its attempt only
  after the coordinator has resolved the round and built the new semaphore. The
  coordinator is then about to call \<open>iniciar_rodada\<close> for the second round.
\<close>

definition escala_atrasada :: "thread list" where
  "escala_atrasada =
     [Jogador 0, Jogador 1, Jogador 2, Jogador 3, Coordenador, Coordenador, Coordenador]
     @ [Jogador 0, Jogador 0] @ jogada 1 @ jogada 2 @ jogada 3
     @ [Coordenador, Coordenador, Coordenador]
     @ [Jogador 0, Jogador 0]
     @ [Coordenador]"




section \<open>Rounds whose attempts fall into the settle time\<close>

text \<open>
  The coordinator sleeps between \<open>parar_musica\<close> and \<open>liberar_threads_eliminadas\<close> so that
  the players make their attempts in between. The definitions below describe the runs
  in which this works out: the attempts of a round are made one after the other while
  the coordinator sleeps (line 175), nothing else happens in between, and no call of
  \<open>try_acquire\<close> fails spuriously.

  \<open>tentativa p\<close>: lines 149 and 150 of \<open>joga\<close>, run by the thread of \<open>jogadores_objs[p]\<close>.
  A number that names no thread does nothing.
\<close>

definition tentativa :: "nat \<Rightarrow> estado \<times> jogador list \<Rightarrow> estado \<times> jogador list" where
  "tentativa p cfg =
     (case cfg of (s, js) \<Rightarrow>
        if p < length js then
          (case tentar_ocupar_cadeira False (js ! p) s of
             (j', s') \<Rightarrow> (verificar_eliminacao j' s', js[p := j']))
        else (s, js))"

fun tentativas :: "nat list \<Rightarrow> estado \<times> jogador list \<Rightarrow> estado \<times> jogador list" where
  "tentativas [] cfg = cfg"
| "tentativas (p # ps) cfg = tentativas ps (tentativa p cfg)"

text \<open>The body of the loop of \<open>iniciar_jogo\<close>, with the attempts of the threads \<open>ps\<close>.\<close>

definition rodada :: "int \<Rightarrow> nat list \<Rightarrow> estado \<times> jogador list \<Rightarrow> estado \<times> jogador list" where
  "rodada nj ps cfg =
     (case tentativas ps (parar_musica (iniciar_rodada (fst cfg)), snd cfg) of
        (s, js) \<Rightarrow> (recriar_semaforo (retomar_musica (liberar_threads_eliminadas nj s)), js))"

text \<open>
  \<open>iniciar_jogo\<close>: the loop runs while more than one id is active. The list \<open>pss\<close> gives
  the attempting threads of each round to come; when it is used up before the loop ends
  the result is \<open>None\<close>. The result carries, besides the final state, the active ids
  as they were at the end of each round.
\<close>

fun iniciar_jogo ::
  "int \<Rightarrow> nat list list \<Rightarrow> estado \<times> jogador list
     \<Rightarrow> ((estado \<times> jogador list) \<times> int list list) option" where
  "iniciar_jogo nj [] cfg =
     (if 1 < length (jogadores_ativos (fst cfg)) then None
      else Some ((anunciar_vencedor (encerrar (fst cfg)), snd cfg), []))"
| "iniciar_jogo nj (ps # pss) cfg =
     (if 1 < length (jogadores_ativos (fst cfg)) then
        (case iniciar_jogo nj pss (rodada nj ps cfg) of
           None \<Rightarrow> None
         | Some (fim, hist) \<Rightarrow> Some (fim, jogadores_ativos (fst (rodada nj ps cfg)) # hist))
      else Some ((anunciar_vencedor (encerrar (fst cfg)), snd cfg), []))"

text \<open>
  The assumption on the timing: in every round that is played, each attempting thread
  exists, attempts once, and belongs to a player that is still active when the round
  starts.
\<close>

fun em_tempo :: "int \<Rightarrow> nat list list \<Rightarrow> estado \<times> jogador list \<Rightarrow> bool" where
  "em_tempo nj [] cfg = True"
| "em_tempo nj (ps # pss) cfg =
     (if 1 < length (jogadores_ativos (fst cfg)) then
        distinct ps \<and>
        list_all (\<lambda>p. p < length (snd cfg) \<and>
                      id_jogador (snd cfg ! p) \<in> set (jogadores_ativos (fst cfg))) ps \<and>
        em_tempo nj pss (rodada nj ps cfg)
      else True)"

text \<open>The state in which \<open>main\<close> starts the threads, for \<open>nj\<close> participants.\<close>

definition partida :: "int \<Rightarrow> estado \<times> jogador list" where
  "partida nj = (JogoDasCadeiras nj (globais nj), jogadores_objs nj)"

text \<open>
  The first round as the sleeps intend it, then the coordinator alone until it has
  ended the game, then the four players leave: no player passes the wait for the resume
  before the end, since line 180 sends no notification.
\<close>

definition escala_prevista :: "thread list" where
  "escala_prevista =
     escala_rodada1
     @ [Coordenador, Coordenador, Coordenador, Coordenador]
     @ [Coordenador, Coordenador, Coordenador, Coordenador, Coordenador, Coordenador]
     @ [Coordenador, Coordenador, Coordenador, Coordenador, Coordenador, Coordenador]
     @ [Coordenador, Coordenador]
     @ volta 0 @ volta 1 @ volta 2 @ volta 3"

text \<open>
  What the rounds keep true from one loop test to the next: the active ids are distinct,
  the player object of thread \<open>p\<close> has id \<open>p + 1\<close>, a player whose flag is set is no longer
  active, and the semaphore holds one permit less than there are active ids.
\<close>

definition coerente :: "estado \<times> jogador list \<Rightarrow> bool" where
  "coerente cfg =
     (distinct (jogadores_ativos (fst cfg)) \<and>
      (\<forall>p < length (snd cfg).
         id_jogador (snd cfg ! p) = int p + 1 \<and>
         (eliminado (snd cfg ! p) \<longrightarrow>
            id_jogador (snd cfg ! p) \<notin> set (jogadores_ativos (fst cfg)))) \<and>
      cadeira_sem (fst cfg) = int (length (jogadores_ativos (fst cfg))) - 1)"

section \<open>Auxiliary facts\<close>

subsection \<open>The resolution of a round\<close>

lemma laco_eliminacao_find:
  "laco_eliminacao ss xs s =
     (case find (\<lambda>x. x \<notin> set ss) xs of
        None \<Rightarrow> (- 1, s)
      | Some x \<Rightarrow> (x, eliminar_jogador x s))"
  by (induction xs) simp_all

lemma liberar_ativos:
  "jogadores_ativos (liberar_threads_eliminadas nj s) =
     (case find (\<lambda>x. x \<notin> fst ` set (cadeiras_ocupadas s)) (jogadores_ativos s) of
        None \<Rightarrow> jogadores_ativos s
      | Some x \<Rightarrow> removeAll x (jogadores_ativos s))"
  by (simp add: liberar_threads_eliminadas_def laco_eliminacao_find exibir_resultado_rodada_def
      eliminar_jogador_def split: option.split)

lemma liberar_saida:
  "saida (liberar_threads_eliminadas nj s) =
     saida s @ map (\<lambda>i. CadeiraOcupada (i + 1) (fst (cadeiras_ocupadas s ! i)))
              [0 ..< length (cadeiras_ocupadas s)]
      @ [Eliminado (case find (\<lambda>x. x \<notin> fst ` set (cadeiras_ocupadas s)) (jogadores_ativos s) of
        None \<Rightarrow> - 1 | Some x \<Rightarrow> x)]"
  by (simp add: liberar_threads_eliminadas_def laco_eliminacao_find exibir_resultado_rodada_def
      eliminar_jogador_def split: option.split)

lemma liberar_subset:
  "set (jogadores_ativos (liberar_threads_eliminadas nj s)) \<subseteq> set (jogadores_ativos s)"
  by (auto simp: liberar_ativos split: option.splits)

lemma tentar_ativos:
  "jogadores_ativos (snd (tentar_ocupar_cadeira falha j s)) = jogadores_ativos s"
  by (simp add: tentar_ocupar_cadeira_def try_acquire_def)

lemma passo_de_jogador:
  assumes "passo t sys = Some sys'" and "t \<noteq> Coordenador"
  obtains i falha pc j s where
    "t = (if falha then Jogador_falha i else Jogador i)"
    "i < length (jogs sys)"
    "passo_jogador falha (snd (jogs sys ! i)) (fst (jogs sys ! i)) (glob sys) = Some (pc, j, s)"
    "sys' = sys\<lparr> glob := s, jogs := (jogs sys)[i := (j, pc)] \<rparr>"
proof (cases t)
  case Coordenador
  with assms(2) show ?thesis by simp
next
  case (Jogador i)
  with assms(1) obtain pc j s where
    "i < length (jogs sys)"
    "passo_jogador False (snd (jogs sys ! i)) (fst (jogs sys ! i)) (glob sys) = Some (pc, j, s)"
    "sys' = sys\<lparr> glob := s, jogs := (jogs sys)[i := (j, pc)] \<rparr>"
    by (auto split: option.splits if_splits)
  with Jogador that [of False i pc j s] show ?thesis by simp
next
  case (Jogador_falha i)
  with assms(1) obtain pc j s where
    "i < length (jogs sys)"
    "passo_jogador True (snd (jogs sys ! i)) (fst (jogs sys ! i)) (glob sys) = Some (pc, j, s)"
    "sys' = sys\<lparr> glob := s, jogs := (jogs sys)[i := (j, pc)] \<rparr>"
    by (auto split: option.splits if_splits)
  with Jogador_falha that [of True i pc j s] show ?thesis by simp
qed

lemma passo_jogador_ativos:
  assumes "passo_jogador falha pc j s = Some (pc', j', s')"
  shows "jogadores_ativos s' =
           (if pc = J_verificar \<and> eliminado j then removeAll (id_jogador j) (jogadores_ativos s)
            else jogadores_ativos s)"
  using assms tentar_ativos [of falha j s]
  by (cases pc)
     (auto simp: verificar_eliminacao_def eliminar_jogador_def split: if_splits prod.splits)

lemma passo_coordenador_ativos:
  assumes "passo_coordenador pc s = Some (pc', s')"
  shows "jogadores_ativos s' =
           (if pc = C_liberar then jogadores_ativos (liberar_threads_eliminadas NUM_JOGADORES s)
            else jogadores_ativos s)"
  using assms
  by (cases pc)
     (auto simp: iniciar_rodada_def parar_musica_def retomar_musica_def recriar_semaforo_def
        encerrar_def anunciar_vencedor_def split: list.splits)

lemma passo_subset:
  assumes "passo t sys = Some sys'"
  shows "set (jogadores_ativos (glob sys')) \<subseteq> set (jogadores_ativos (glob sys))"
proof (cases "t = Coordenador")
  case True
  with assms obtain pc s where
    p: "passo_coordenador (coord sys) (glob sys) = Some (pc, s)" and g: "glob sys' = s"
    by (auto split: option.splits)
  show ?thesis
    using passo_coordenador_ativos [OF p] liberar_subset [of NUM_JOGADORES "glob sys"] g
    by (auto split: if_splits)
next
  case False
  from passo_de_jogador [OF assms False] obtain falha k pc j s where
    p: "passo_jogador falha (snd (jogs sys ! k)) (fst (jogs sys ! k)) (glob sys) = Some (pc, j, s)"
    and g: "sys' = sys\<lparr> glob := s, jogs := (jogs sys)[k := (j, pc)] \<rparr>"
    by metis
  show ?thesis
    using passo_jogador_ativos [OF p] g by (auto split: if_splits)
qed

lemma executa_subset:
  "executa ts sys = Some sys' \<Longrightarrow>
     set (jogadores_ativos (glob sys')) \<subseteq> set (jogadores_ativos (glob sys))"
proof (induction ts arbitrary: sys)
  case Nil
  then show ?case by simp
next
  case (Cons t ts)
  then obtain sys1 where s1: "passo t sys = Some sys1" and r: "executa ts sys1 = Some sys'"
    by (auto split: option.splits)
  from passo_subset [OF s1] Cons.IH [OF r] show ?case by blast
qed

subsection \<open>Attempts\<close>

lemma tentar_ocupar_cadeira_eq:
  "tentar_ocupar_cadeira falha j s =
     (if cadeira_sem s = 0 \<or> falha then (j\<lparr> eliminado := True \<rparr>, s)
      else
        (j, s\<lparr> cadeira_sem := cadeira_sem s - 1,
               cadeiras_ocupadas := cadeiras_ocupadas s @ [(id_jogador j, id_jogador j)] \<rparr>))"
  by (simp add: tentar_ocupar_cadeira_def try_acquire_def)

lemma tentativa_sentou:
  assumes "p < length js" and "0 < cadeira_sem s"
  shows "tentativa p (s, js) =
           (verificar_eliminacao (js ! p)
              (s\<lparr> cadeira_sem := cadeira_sem s - 1,
                  cadeiras_ocupadas :=
                    cadeiras_ocupadas s @ [(id_jogador (js ! p), id_jogador (js ! p))] \<rparr>), js)"
  using assms by (simp add: tentativa_def tentar_ocupar_cadeira_eq)

lemma tentativa_ficou_de_pe:
  assumes "p < length js" and "cadeira_sem s = 0"
  shows "tentativa p (s, js) =
           (eliminar_jogador (id_jogador (js ! p)) s, js[p := (js ! p)\<lparr> eliminado := True \<rparr>])"
  using assms by (simp add: tentativa_def tentar_ocupar_cadeira_eq verificar_eliminacao_def)








subsection \<open>A round whose attempts fall into the settle time\<close>

lemma tentativas_append: "tentativas (ps @ qs) cfg = tentativas qs (tentativas ps cfg)"
  by (induction ps arbitrary: cfg) simp_all

lemma tentativas_todas_sentam:
  assumes "\<forall>p \<in> set ps. p < length js \<and> \<not> eliminado (js ! p)"
    and "int (length ps) \<le> cadeira_sem s"
  shows "tentativas ps (s, js) =
           (s\<lparr> cadeira_sem := cadeira_sem s - int (length ps),
               cadeiras_ocupadas :=
                 cadeiras_ocupadas s @ map (\<lambda>p. (id_jogador (js ! p), id_jogador (js ! p))) ps \<rparr>,
            js)"
  using assms
proof (induction ps arbitrary: s)
  case Nil
  then show ?case by simp
next
  case (Cons p ps)
  from Cons.prems have p: "p < length js" "\<not> eliminado (js ! p)" "0 < cadeira_sem s"
    by auto
  let ?s1 = "s\<lparr> cadeira_sem := cadeira_sem s - 1,
                cadeiras_ocupadas :=
                  cadeiras_ocupadas s @ [(id_jogador (js ! p), id_jogador (js ! p))] \<rparr>"
  have t: "tentativa p (s, js) = (?s1, js)"
    using p by (simp add: tentativa_sentou verificar_eliminacao_def)
  have "tentativas ps (?s1, js) =
          (?s1\<lparr> cadeira_sem := cadeira_sem ?s1 - int (length ps),
                cadeiras_ocupadas :=
                  cadeiras_ocupadas ?s1
                  @ map (\<lambda>p. (id_jogador (js ! p), id_jogador (js ! p))) ps \<rparr>, js)"
    using Cons.prems by (intro Cons.IH) auto
  with t show ?case by simp
qed

lemma find_Some_D: "find P xs = Some x \<Longrightarrow> x \<in> set xs \<and> P x"
  by (induction xs) (auto split: if_splits)

lemma length_removeAll_distinct:
  "distinct xs \<Longrightarrow> x \<in> set xs \<Longrightarrow> length (removeAll x xs) = length xs - 1"
  by (simp add: distinct_remove1_removeAll [symmetric] length_remove1)

lemma ids_distintos:
  assumes "\<forall>p < length js. id_jogador (js ! p) = int p + 1"
    and "distinct ps" and "\<forall>p \<in> set ps. p < length js"
  shows "distinct (map (\<lambda>p. id_jogador (js ! p)) ps)"
proof -
  have e: "map (\<lambda>p. id_jogador (js ! p)) ps = map (\<lambda>p. int p + 1) ps"
    using assms by simp
  have "distinct (map (\<lambda>p. int p + 1) ps)"
    using assms(2) by (simp add: distinct_map inj_on_def)
  then show ?thesis unfolding e .
qed

lemma rodada_em_tempo:
  assumes co: "coerente (s, js)"
    and a: "1 < length (jogadores_ativos s)"
    and d: "distinct ps"
    and at: "\<forall>p \<in> set ps. p < length js \<and> id_jogador (js ! p) \<in> set (jogadores_ativos s)"
  shows "coerente (rodada nj ps (s, js)) \<and>
         length (jogadores_ativos (fst (rodada nj ps (s, js)))) = length (jogadores_ativos s) - 1"
proof -
  let ?A = "jogadores_ativos s"
  let ?ids = "\<lambda>qs. map (\<lambda>p. id_jogador (js ! p)) qs"
  let ?s0 = "parar_musica (iniciar_rodada s)"
  from co have dA: "distinct ?A"
    and idj: "\<forall>p < length js. id_jogador (js ! p) = int p + 1"
    and el: "\<forall>p < length js. eliminado (js ! p) \<longrightarrow> id_jogador (js ! p) \<notin> set ?A"
    and sem: "cadeira_sem s = int (length ?A) - 1"
    by (auto simp: coerente_def)
  have s0: "cadeira_sem ?s0 = int (length ?A) - 1" "jogadores_ativos ?s0 = ?A"
    "cadeiras_ocupadas ?s0 = []"
    using sem by (simp_all add: parar_musica_def iniciar_rodada_def)
  have dids: "distinct (?ids ps)"
    using ids_distintos [OF idj d] at by blast
  have sub: "set (?ids ps) \<subseteq> set ?A" using at by auto
  have cids: "card (set (?ids ps)) = length ps"
    using distinct_card [OF dids] by simp
  have cA: "card (set ?A) = length ?A"
    using dA by (rule distinct_card)
  have "card (set (?ids ps)) \<le> card (set ?A)"
    using sub by (intro card_mono) simp_all
  then have len: "length ps \<le> length ?A"
    unfolding cids cA .
  have ne: "\<forall>p \<in> set ps. p < length js \<and> \<not> eliminado (js ! p)"
    using at el by blast
  show ?thesis
  proof (cases "length ps < length ?A")
    case True
    then have "int (length ps) \<le> cadeira_sem ?s0" using s0 by simp
    from tentativas_todas_sentam [OF ne this]
    obtain s1 where t: "tentativas ps (?s0, js) = (s1, js)"
      and s1: "jogadores_ativos s1 = ?A" "map fst (cadeiras_ocupadas s1) = ?ids ps"
      using s0 by (simp add: comp_def)
    have "card (set (?ids ps)) < card (set ?A)"
      unfolding cids cA using True .
    then have "set (?ids ps) \<noteq> set ?A" by auto
    with sub obtain y where "y \<in> set ?A" "y \<notin> set (?ids ps)" by blast
    then have "find (\<lambda>x. x \<notin> fst ` set (cadeiras_ocupadas s1)) (jogadores_ativos s1) \<noteq> None"
      using s1 by (auto simp: find_None_iff simp flip: set_map)
    then obtain x where f: "find (\<lambda>x. x \<notin> fst ` set (cadeiras_ocupadas s1)) (jogadores_ativos s1) = Some x"
      by blast
    from find_Some_D [OF f] s1 have x: "x \<in> set ?A" by simp
    have r: "jogadores_ativos (fst (rodada nj ps (s, js))) = removeAll x ?A"
      "snd (rodada nj ps (s, js)) = js"
      "cadeira_sem (fst (rodada nj ps (s, js))) = int (length (removeAll x ?A)) - 1"
      using t f s1
      by (simp_all add: rodada_def recriar_semaforo_def retomar_musica_def liberar_ativos)
    have "coerente (rodada nj ps (s, js))"
      unfolding coerente_def using r dA idj el by (auto simp: distinct_removeAll)
    moreover have "length (removeAll x ?A) = length ?A - 1"
      using dA x by (rule length_removeAll_distinct)
    ultimately show ?thesis using r by simp
  next
    case False
    with len have eq: "length ps = length ?A" by simp
    with a obtain qs q where ps: "ps = qs @ [q]"
      by (cases ps rule: rev_cases) auto
    have lq: "int (length qs) \<le> cadeira_sem ?s0" using eq ps s0 by simp
    have neq: "\<forall>p \<in> set qs. p < length js \<and> \<not> eliminado (js ! p)" using ne ps by simp
    let ?s1 = "?s0\<lparr> cadeira_sem := cadeira_sem ?s0 - int (length qs),
                    cadeiras_ocupadas := cadeiras_ocupadas ?s0 @ map (\<lambda>p. (id_jogador (js ! p), id_jogador (js ! p))) qs \<rparr>"
    have t1: "tentativas qs (?s0, js) = (?s1, js)"
      by (rule tentativas_todas_sentam [OF neq lq])
    have z: "cadeira_sem ?s1 = 0" using eq ps s0 by simp
    have q: "q < length js" using at ps by simp
    let ?iq = "id_jogador (js ! q)"
    let ?js' = "js[q := (js ! q)\<lparr> eliminado := True \<rparr>]"
    have t: "tentativas ps (?s0, js) = (eliminar_jogador ?iq ?s1, ?js')"
      unfolding ps tentativas_append t1 using tentativa_ficou_de_pe [OF q z] by simp
    let ?s2 = "eliminar_jogador ?iq ?s1"
    have s2: "jogadores_ativos ?s2 = removeAll ?iq ?A"
      "map fst (cadeiras_ocupadas ?s2) = ?ids qs"
      using s0 by (simp_all add: eliminar_jogador_def comp_def)
    have "card (set (?ids ps)) = card (set ?A)"
      unfolding cids cA using eq .
    with sub have seteq: "set (?ids ps) = set ?A"
      by (intro card_subset_eq) simp_all
    have niq: "?iq \<notin> set (?ids qs)" using dids ps by simp
    have "set ?A = insert ?iq (set (?ids qs))" using seteq ps by simp
    with niq have "set (removeAll ?iq ?A) = set (?ids qs)"
      unfolding set_removeAll by blast
    then have f: "find (\<lambda>x. x \<notin> fst ` set (cadeiras_ocupadas ?s2)) (jogadores_ativos ?s2) = None"
      using s2 by (simp add: find_None_iff flip: set_map)
    have r: "jogadores_ativos (fst (rodada nj ps (s, js))) = removeAll ?iq ?A"
      "snd (rodada nj ps (s, js)) = ?js'"
      "cadeira_sem (fst (rodada nj ps (s, js))) = int (length (removeAll ?iq ?A)) - 1"
      using t f s2
      by (simp_all add: rodada_def recriar_semaforo_def retomar_musica_def liberar_ativos)
    have iqA: "?iq \<in> set ?A" using at ps by simp
    have "coerente (rodada nj ps (s, js))"
      unfolding coerente_def using r dA idj el q
      by (auto simp: distinct_removeAll nth_list_update)
    moreover have "length (removeAll ?iq ?A) = length ?A - 1"
      using dA iqA by (rule length_removeAll_distinct)
    ultimately show ?thesis using r by simp
  qed
qed

lemma partida_coerente:
  assumes "0 \<le> n"
  shows "coerente (partida n)" and "length (jogadores_ativos (fst (partida n))) = nat n"
proof -
  have "[1..n] ! p = int p + 1" if "p < nat n" for p
    using that by (subst nth_upto) auto
  then show "coerente (partida n)"
    using assms
    by (simp add: coerente_def partida_def JogoDasCadeiras_def globais_def jogadores_objs_def)
  show "length (jogadores_ativos (fst (partida n))) = nat n"
    by (simp add: partida_def JogoDasCadeiras_def globais_def)
qed

lemma iniciar_jogo_fim:
  "\<not> 1 < length (jogadores_ativos (fst cfg)) \<Longrightarrow>
     iniciar_jogo nj pss cfg = Some ((anunciar_vencedor (encerrar (fst cfg)), snd cfg), [])"
  by (cases pss) simp_all

lemma jogo_em_tempo:
  assumes "coerente cfg" and "em_tempo nj pss cfg"
    and "length (jogadores_ativos (fst cfg)) = Suc m" and "m \<le> length pss"
  shows "\<exists>fim hist. iniciar_jogo nj pss cfg = Some (fim, hist) \<and>
           map length hist = rev [1 ..< Suc m] \<and>
           length (jogadores_ativos (fst fim)) = 1 \<and> \<not> jogo_ativo (fst fim)"
  using assms
proof (induction m arbitrary: pss cfg)
  case 0
  then have "\<not> 1 < length (jogadores_ativos (fst cfg))" by simp
  from iniciar_jogo_fim [OF this] 0 show ?case
    by (auto simp: anunciar_vencedor_def encerrar_def split: list.splits)
next
  case (Suc m)
  then obtain ps rest where pss: "pss = ps # rest" by (cases pss) auto
  obtain s js where cfg: "cfg = (s, js)" by (cases cfg)
  have a: "1 < length (jogadores_ativos s)" using Suc.prems(3) cfg by simp
  from Suc.prems(2) pss cfg a have d: "distinct ps"
    and at: "\<forall>p \<in> set ps. p < length js \<and> id_jogador (js ! p) \<in> set (jogadores_ativos s)"
    and et: "em_tempo nj rest (rodada nj ps (s, js))"
    by (auto simp: list_all_iff)
  from rodada_em_tempo [OF _ a d at, of nj] Suc.prems(1) cfg
  have co: "coerente (rodada nj ps (s, js))"
    and len: "length (jogadores_ativos (fst (rodada nj ps (s, js)))) = Suc m"
    using Suc.prems(3) by auto
  from Suc.IH [OF co et len] Suc.prems(4) pss
  obtain fim hist where r: "iniciar_jogo nj rest (rodada nj ps (s, js)) = Some (fim, hist)"
    and h: "map length hist = rev [1 ..< Suc m]"
    and f: "length (jogadores_ativos (fst fim)) = 1" "\<not> jogo_ativo (fst fim)"
    by auto
  have "iniciar_jogo nj pss cfg =
          Some (fim, jogadores_ativos (fst (rodada nj ps (s, js))) # hist)"
    using a r by (simp add: pss cfg)
  with h f len show ?case by simp
qed

subsection \<open>Rounds as executions of the threads\<close>

lemma executa_append:
  "executa (ts @ us) sys = (case executa ts sys of None \<Rightarrow> None | Some sys' \<Rightarrow> executa us sys')"
  by (induction ts arbitrary: sys) (simp_all split: option.splits)

lemma tentativa_flags:
  "musica_parada (fst (tentativa p cfg)) = musica_parada (fst cfg)"
  "jogo_ativo (fst (tentativa p cfg)) = jogo_ativo (fst cfg)"
  by (cases cfg; simp add: tentativa_def tentar_ocupar_cadeira_eq verificar_eliminacao_def
        eliminar_jogador_def)+

lemma executa_jogada:
  assumes "p < length (jogs sys)" and "snd (jogs sys ! p) = J_espera_parada"
    and "musica_parada (glob sys)" and "jogo_ativo (glob sys)"
  shows "executa (jogada p) sys =
           Some (sys\<lparr> glob := fst (tentativa p (glob sys, map fst (jogs sys))),
                      jogs := (jogs sys)[p := (snd (tentativa p (glob sys, map fst (jogs sys))) ! p,
                                               J_espera_tocando)] \<rparr>)"
proof -
  obtain j' s' where t: "tentar_ocupar_cadeira False (fst (jogs sys ! p)) (glob sys) = (j', s')"
    by (cases "tentar_ocupar_cadeira False (fst (jogs sys ! p)) (glob sys)")
  have m: "musica_parada s'" "jogo_ativo s'"
    using t assms(3,4) by (auto simp: tentar_ocupar_cadeira_eq split: if_splits)
  show ?thesis
    using assms t by (simp add: jogada_def tentativa_def)
qed

lemma executa_jogadas:
  assumes "distinct ps"
    and "\<forall>p \<in> set ps. p < length (jogs sys) \<and> snd (jogs sys ! p) = J_espera_parada"
    and "musica_parada (glob sys)" and "jogo_ativo (glob sys)"
  shows "\<exists>sys'. executa (concat (map jogada ps)) sys = Some sys' \<and>
           (glob sys', map fst (jogs sys')) = tentativas ps (glob sys, map fst (jogs sys)) \<and>
           coord sys' = coord sys"
  using assms
proof (induction ps arbitrary: sys)
  case Nil
  then show ?case by simp
next
  case (Cons p ps)
  let ?cfg = "tentativa p (glob sys, map fst (jogs sys))"
  let ?sys1 = "sys\<lparr> glob := fst ?cfg,
                     jogs := (jogs sys)[p := (snd ?cfg ! p, J_espera_tocando)] \<rparr>"
  from Cons.prems have p: "p < length (jogs sys)" "snd (jogs sys ! p) = J_espera_parada"
    by simp_all
  have e1: "executa (jogada p) sys = Some ?sys1"
    using p Cons.prems(3,4) by (rule executa_jogada)
  have js1: "map fst (jogs ?sys1) = snd ?cfg"
    using p by (auto simp: tentativa_def map_update split: prod.splits)
  have g1: "glob ?sys1 = fst ?cfg" by simp
  have "\<exists>sys'. executa (concat (map jogada ps)) ?sys1 = Some sys' \<and>
           (glob sys', map fst (jogs sys')) = tentativas ps (glob ?sys1, map fst (jogs ?sys1)) \<and>
           coord sys' = coord ?sys1"
  proof (rule Cons.IH)
    show "distinct ps" using Cons.prems(1) by simp
    show "\<forall>q \<in> set ps. q < length (jogs ?sys1) \<and> snd (jogs ?sys1 ! q) = J_espera_parada"
      using Cons.prems(1,2) by (auto simp: nth_list_update)
    show "musica_parada (glob ?sys1)" using Cons.prems(3) by (simp add: tentativa_flags)
    show "jogo_ativo (glob ?sys1)" using Cons.prems(4) by (simp add: tentativa_flags)
  qed
  then obtain sys' where
    r: "executa (concat (map jogada ps)) ?sys1 = Some sys'"
    "(glob sys', map fst (jogs sys')) = tentativas ps (glob ?sys1, map fst (jogs ?sys1))"
    "coord sys' = coord ?sys1"
    by blast
  have "executa (concat (map jogada (p # ps))) sys = Some sys'"
    using e1 r(1) by (simp add: executa_append)
  moreover have "(glob sys', map fst (jogs sys')) = tentativas (p # ps) (glob sys, map fst (jogs sys))"
    using r(2) unfolding js1 g1 by simp
  moreover have "coord sys' = coord sys" using r(3) by simp
  ultimately show ?case by blast
qed

subsection \<open>The winner\<close>

lemma jogo_vencedor:
  assumes "coerente cfg" and "em_tempo nj pss cfg"
    and "length (jogadores_ativos (fst cfg)) = Suc m" and "m \<le> length pss"
  shows "\<exists>fim hist w. iniciar_jogo nj pss cfg = Some (fim, hist) \<and>
           jogadores_ativos (fst fim) = [w] \<and> last (saida (fst fim)) = Vencedor w"
  using assms
proof (induction m arbitrary: pss cfg)
  case 0
  then have n: "\<not> 1 < length (jogadores_ativos (fst cfg))" by simp
  from 0 obtain w where w: "jogadores_ativos (fst cfg) = [w]"
    by (cases "jogadores_ativos (fst cfg)") auto
  from iniciar_jogo_fim [OF n, of nj pss] w show ?case
    by (simp add: anunciar_vencedor_def encerrar_def)
next
  case (Suc m)
  then obtain ps rest where pss: "pss = ps # rest" by (cases pss) auto
  obtain s js where cfg: "cfg = (s, js)" by (cases cfg)
  have a: "1 < length (jogadores_ativos s)" using Suc.prems(3) cfg by simp
  from Suc.prems(2) pss cfg a have d: "distinct ps"
    and at: "\<forall>p \<in> set ps. p < length js \<and> id_jogador (js ! p) \<in> set (jogadores_ativos s)"
    and et: "em_tempo nj rest (rodada nj ps (s, js))"
    by (auto simp: list_all_iff)
  from rodada_em_tempo [OF _ a d at, of nj] Suc.prems(1) cfg
  have co: "coerente (rodada nj ps (s, js))"
    and len: "length (jogadores_ativos (fst (rodada nj ps (s, js)))) = Suc m"
    using Suc.prems(3) by auto
  from Suc.IH [OF co et len] Suc.prems(4) pss
  obtain fim hist w where r: "iniciar_jogo nj rest (rodada nj ps (s, js)) = Some (fim, hist)"
    and f: "jogadores_ativos (fst fim) = [w]" "last (saida (fst fim)) = Vencedor w"
    by auto
  have "iniciar_jogo nj pss cfg =
          Some (fim, jogadores_ativos (fst (rodada nj ps (s, js))) # hist)"
    using a r by (simp add: pss cfg)
  with f show ?case by blast
qed

lemma tentativa_subset:
  "set (jogadores_ativos (fst (tentativa p cfg))) \<subseteq> set (jogadores_ativos (fst cfg))"
  by (cases cfg)
     (auto simp: tentativa_def tentar_ocupar_cadeira_eq verificar_eliminacao_def
        eliminar_jogador_def split: if_splits)

lemma tentativas_subset:
  "set (jogadores_ativos (fst (tentativas ps cfg))) \<subseteq> set (jogadores_ativos (fst cfg))"
proof (induction ps arbitrary: cfg)
  case Nil
  then show ?case by simp
next
  case (Cons p ps)
  from Cons.IH [of "tentativa p cfg"] tentativa_subset [of p cfg] show ?case
    by auto
qed

lemma rodada_subset:
  "set (jogadores_ativos (fst (rodada nj ps cfg))) \<subseteq> set (jogadores_ativos (fst cfg))"
proof -
  obtain s js where t: "tentativas ps (parar_musica (iniciar_rodada (fst cfg)), snd cfg) = (s, js)"
    by (cases "tentativas ps (parar_musica (iniciar_rodada (fst cfg)), snd cfg)")
  have "set (jogadores_ativos s) \<subseteq> set (jogadores_ativos (parar_musica (iniciar_rodada (fst cfg))))"
    using tentativas_subset [of ps "(parar_musica (iniciar_rodada (fst cfg)), snd cfg)"] t
    by simp
  then have "set (jogadores_ativos s) \<subseteq> set (jogadores_ativos (fst cfg))"
    by (simp add: parar_musica_def iniciar_rodada_def)
  with liberar_subset [of nj s] t show ?thesis
    by (auto simp: rodada_def recriar_semaforo_def retomar_musica_def)
qed

lemma iniciar_jogo_subset:
  "iniciar_jogo nj pss cfg = Some (fim, hist) \<Longrightarrow>
     set (jogadores_ativos (fst fim)) \<subseteq> set (jogadores_ativos (fst cfg))"
proof (induction pss arbitrary: cfg hist)
  case Nil
  then show ?case
    by (auto simp: anunciar_vencedor_def encerrar_def split: if_splits list.splits)
next
  case (Cons ps pss)
  show ?case
  proof (cases "1 < length (jogadores_ativos (fst cfg))")
    case True
    with Cons.prems obtain h where "iniciar_jogo nj pss (rodada nj ps cfg) = Some (fim, h)"
      by (auto split: option.splits)
    from Cons.IH [OF this] rodada_subset [of nj ps cfg] show ?thesis by blast
  next
    case False
    with Cons.prems show ?thesis
      by (auto simp: anunciar_vencedor_def encerrar_def split: list.splits)
  qed
qed

subsection \<open>The final state of a schedule\<close>

lemma travada_final:
  "executa escala_travada sistema_inicial =
     Some \<lparr> glob =
              \<lparr> cadeira_sem = 0, musica_parada = False, jogo_ativo = False,
                jogadores_ativos = [1], cadeiras_ocupadas = [(1, 1)],
                num_jogadores = 4, cadeiras = 1,
                saida =
                  [Inicio 4 3, MusicaParou, CadeiraOcupada 1 1, CadeiraOcupada 2 2,
                   CadeiraOcupada 3 3, Eliminado (- 1), Inicio 3 2, MusicaParou,
                   CadeiraOcupada 1 1, Eliminado 2, Inicio 2 1, MusicaParou,
                   CadeiraOcupada 1 1, Eliminado 3, Vencedor 1] \<rparr>,
            jogs =
              [(\<lparr> id_jogador = 1, eliminado = False \<rparr>, J_espera_parada),
               (\<lparr> id_jogador = 2, eliminado = False \<rparr>, J_fim),
               (\<lparr> id_jogador = 3, eliminado = False \<rparr>, J_fim),
               (\<lparr> id_jogador = 4, eliminado = True \<rparr>, J_fim)],
            coord = C_fim \<rparr>"
  by code_simp

section \<open>The rounds and the threads\<close>

text \<open>
  A round of \<open>iniciar_jogo\<close> with the attempts in the settle time is an execution of the
  threads: when the coordinator is about to start a round and the threads \<open>ps\<close> are at the
  wait for the stop, the coordinator's two steps up to the stop, the four steps of each
  thread of \<open>ps\<close> in turn and the coordinator's three steps up to the loop test lead to the
  shared state and the player objects that \<open>rodada\<close> computes.
\<close>

theorem rodada_por_threads:
  assumes "coord sys = C_iniciar_rodada" and "jogo_ativo (glob sys)" and "distinct ps"
    and "list_all (\<lambda>p. p < length (jogs sys) \<and> snd (jogs sys ! p) = J_espera_parada) ps"
  shows "\<exists>sys'. executa ([Coordenador, Coordenador] @ concat (map jogada ps)
                          @ [Coordenador, Coordenador, Coordenador]) sys = Some sys' \<and>
           (glob sys', map fst (jogs sys'))
             = rodada NUM_JOGADORES ps (glob sys, map fst (jogs sys)) \<and>
           coord sys' = C_while"
proof -
  let ?sys0 = "sys\<lparr> glob := parar_musica (iniciar_rodada (glob sys)), coord := C_liberar \<rparr>"
  have e0: "executa [Coordenador, Coordenador] sys = Some ?sys0"
    using assms(1) by simp
  have "\<exists>sys'. executa (concat (map jogada ps)) ?sys0 = Some sys' \<and>
           (glob sys', map fst (jogs sys')) = tentativas ps (glob ?sys0, map fst (jogs ?sys0)) \<and>
           coord sys' = coord ?sys0"
  proof (rule executa_jogadas [OF assms(3)])
    show "\<forall>p \<in> set ps. p < length (jogs ?sys0) \<and> snd (jogs ?sys0 ! p) = J_espera_parada"
      using assms(4) by (simp add: list_all_iff)
    show "musica_parada (glob ?sys0)" by (simp add: parar_musica_def)
    show "jogo_ativo (glob ?sys0)"
      using assms(2) by (simp add: parar_musica_def iniciar_rodada_def)
  qed
  then obtain sys1 where
    e1: "executa (concat (map jogada ps)) ?sys0 = Some sys1"
    and c1: "(glob sys1, map fst (jogs sys1))
               = tentativas ps (parar_musica (iniciar_rodada (glob sys)), map fst (jogs sys))"
    and p1: "coord sys1 = C_liberar"
    by auto
  let ?sys2 = "sys1\<lparr> glob := recriar_semaforo (retomar_musica
                          (liberar_threads_eliminadas NUM_JOGADORES (glob sys1))),
                      coord := C_while \<rparr>"
  have e2: "executa [Coordenador, Coordenador, Coordenador] sys1 = Some ?sys2"
    using p1 by simp
  have "executa ([Coordenador, Coordenador] @ concat (map jogada ps)
                  @ [Coordenador, Coordenador, Coordenador]) sys = Some ?sys2"
    unfolding executa_append e0 using e1 e2 by simp
  moreover have "(glob ?sys2, map fst (jogs ?sys2))
                   = rodada NUM_JOGADORES ps (glob sys, map fst (jogs sys))"
    using c1 [symmetric] by (simp add: rodada_def)
  moreover have "coord ?sys2 = C_while" by simp
  ultimately show ?thesis by blast
qed

text \<open>
  The four players of the program at the wait for the stop.
\<close>

theorem rodada_por_threads_witness:
  "coord (sistema_inicial\<lparr> jogs := map (\<lambda>j. (j, J_espera_parada)) (jogadores_objs 4),
                            coord := C_iniciar_rodada \<rparr>) = C_iniciar_rodada \<and>
   jogo_ativo (glob sistema_inicial) \<and> distinct [0, 1, 2, 3 :: nat] \<and>
   (\<exists>sys'. executa ([Coordenador, Coordenador] @ concat (map jogada [0, 1, 2, 3])
                     @ [Coordenador, Coordenador, Coordenador])
              (sistema_inicial\<lparr> jogs := map (\<lambda>j. (j, J_espera_parada)) (jogadores_objs 4),
                                coord := C_iniciar_rodada \<rparr>) = Some sys' \<and>
           (glob sys', map fst (jogs sys')) = rodada NUM_JOGADORES [0, 1, 2, 3] (partida 4) \<and>
           coord sys' = C_while)"
proof -
  let ?S = "sistema_inicial\<lparr> jogs := map (\<lambda>j. (j, J_espera_parada)) (jogadores_objs 4),
                             coord := C_iniciar_rodada \<rparr>"
  have a: "coord ?S = C_iniciar_rodada" by simp
  have b: "jogo_ativo (glob ?S)"
    by (simp add: sistema_inicial_def JogoDasCadeiras_def globais_def)
  have c: "distinct [0, 1, 2, 3 :: nat]" by simp
  have d: "list_all (\<lambda>p. p < length (jogs ?S) \<and> snd (jogs ?S ! p) = J_espera_parada) [0, 1, 2, 3]"
    by (simp add: jogadores_objs_def upto_rec1)
  have e: "(glob ?S, map fst (jogs ?S)) = partida 4"
    by (simp add: sistema_inicial_def partida_def NUM_JOGADORES_def comp_def)
  from rodada_por_threads [OF a b c d] a b c e show ?thesis by simp
qed

text \<open>
  Under the assumption on the timing the game ends with exactly one active id, one of
  the ids \<open>1 .. n\<close> it started with, and the last line printed announces it as the
  winner.
\<close>

theorem iniciar_jogo_vencedor:
  assumes "2 \<le> n" and "em_tempo n pss (partida n)" and "nat n - 1 \<le> length pss"
  shows "\<exists>fim hist w. iniciar_jogo n pss (partida n) = Some (fim, hist) \<and>
           jogadores_ativos (fst fim) = [w] \<and> last (saida (fst fim)) = Vencedor w \<and>
           1 \<le> w \<and> w \<le> n"
proof -
  from assms(1) have n: "0 \<le> n" and m: "nat n = Suc (nat n - 1)" by auto
  have l: "length (jogadores_ativos (fst (partida n))) = Suc (nat n - 1)"
    using partida_coerente(2) [OF n] m by simp
  from jogo_vencedor [OF partida_coerente(1) [OF n] assms(2) l assms(3)]
  obtain fim hist w where r: "iniciar_jogo n pss (partida n) = Some (fim, hist)"
    and f: "jogadores_ativos (fst fim) = [w]" "last (saida (fst fim)) = Vencedor w"
    by blast
  have "w \<in> set (jogadores_ativos (fst (partida n)))"
    using iniciar_jogo_subset [OF r] f(1) by simp
  then have "1 \<le> w \<and> w \<le> n"
    by (simp add: partida_def JogoDasCadeiras_def globais_def)
  with r f show ?thesis by blast
qed

text \<open>
  Four participants, the threads attempting in the order 3, 2, 1, 0 in the first round,
  none in the second and thread 2 in the third.
\<close>

theorem iniciar_jogo_vencedor_witness:
  "(2::int) \<le> 4 \<and> em_tempo 4 [[3, 2, 1, 0], [], [2]] (partida 4) \<and>
   nat 4 - 1 \<le> length [[3, 2, 1, 0], [], [2 :: nat]] \<and>
   (\<exists>fim hist w. iniciar_jogo 4 [[3, 2, 1, 0], [], [2]] (partida 4) = Some (fim, hist) \<and>
           jogadores_ativos (fst fim) = [w] \<and> last (saida (fst fim)) = Vencedor w \<and>
           1 \<le> w \<and> w \<le> 4)"
proof -
  have h: "em_tempo 4 [[3, 2, 1, 0], [], [2]] (partida 4)"
    by code_simp
  show ?thesis
    using h iniciar_jogo_vencedor [OF _ h] by simp
qed

text \<open>
  The program with its four players on the schedule the sleeps intend: what it prints,
  and that all five threads return. The first round seats players 1 to 3 and player 4
  removes itself, so the coordinator reports \<open>-1\<close>; in the two other rounds no player is
  past the wait for the resume, nobody sits, and the coordinator eliminates the first
  active id.
\<close>

theorem escala_prevista_saida:
  "map_option (saida \<circ> glob) (executa escala_prevista sistema_inicial) =
     Some [Inicio 4 3, MusicaParou, CadeiraOcupada 1 1, CadeiraOcupada 2 2,
           CadeiraOcupada 3 3, Eliminado (- 1), Inicio 3 2, MusicaParou, Eliminado 1,
           Inicio 2 1, MusicaParou, Eliminado 2, Vencedor 3] \<and>
   map_option coord (executa escala_prevista sistema_inicial) = Some C_fim \<and>
   map_option (map snd \<circ> jogs) (executa escala_prevista sistema_inicial)
     = Some [J_fim, J_fim, J_fim, J_fim]"
  by code_simp

text \<open>
  On the schedule the sleeps intend, the threads and the rounds of \<open>iniciar_jogo\<close> reach
  the same shared state.
\<close>

lemma escala_prevista_rodadas:
  "executa escala_prevista sistema_inicial \<noteq> None \<and>
   map_option glob (executa escala_prevista sistema_inicial) =
     map_option (fst \<circ> fst) (iniciar_jogo 4 [[0, 1, 2, 3], [], []] (partida 4))"
  by code_simp

section \<open>The claims\<close>

subsection \<open>Players blocked at the end of the game\<close>

text \<open>
  Claim C1: once \<open>jogo_ativo\<close> is false and the coordinator has called \<open>notify_all\<close>,
  every player blocked in one of the two waits of \<open>joga\<close> returns from it and leaves its
  loop.

  The program does not do this for the wait for the stop, whose predicate is
  \<open>musica_parada\<close> alone. Under \<open>escala_travada\<close> player 0 is at that wait when the
  coordinator ends the game; \<open>musica_parada\<close> is false then and no thread is left to set
  it. In the state the schedule reaches, the coordinator and the three other players
  have finished, player 0 is still at the wait for the stop, and no thread can take a
  step: the \<open>join\<close> of \<open>main\<close> on player 0 never returns.
\<close>

theorem joga_travado_apos_fim:
  "map_option (jogo_ativo \<circ> glob) (executa escala_travada sistema_inicial) = Some False \<and>
   map_option (musica_parada \<circ> glob) (executa escala_travada sistema_inicial) = Some False \<and>
   map_option coord (executa escala_travada sistema_inicial) = Some C_fim \<and>
   map_option (map snd \<circ> jogs) (executa escala_travada sistema_inicial)
     = Some [J_espera_parada, J_fim, J_fim, J_fim] \<and>
   (\<forall>t. Option.bind (executa escala_travada sistema_inicial) (passo t) = None)"
proof -
  have "Option.bind (executa escala_travada sistema_inicial) (passo t) = None" for t
  proof (cases t)
    case Coordenador
    then show ?thesis by (simp add: travada_final)
  next
    case (Jogador i)
    consider "i = 0" | "i = 1" | "i = 2" | "i = 3" | "4 \<le> i" by linarith
    then show ?thesis
      by cases (simp_all add: Jogador travada_final)
  next
    case (Jogador_falha i)
    consider "i = 0" | "i = 1" | "i = 2" | "i = 3" | "4 \<le> i" by linarith
    then show ?thesis
      by cases (simp_all add: Jogador_falha travada_final)
  qed
  then show ?thesis by (simp add: travada_final)
qed

subsection \<open>Who removes ids from the active list\<close>

text \<open>
  Claim C2, amended: the active list changes only by removal, and two kinds of step
  remove: the coordinator's \<open>liberar_threads_eliminadas\<close>, and the
  \<open>verificar_eliminacao\<close> of a player whose \<open>eliminado\<close> flag is set, which removes that
  player's own id. Every other step of a player or of the coordinator leaves the list
  as it is.
\<close>

theorem passo_remove_ativos:
  "(passo (Jogador i) sys = Some sys' \<longrightarrow>
      jogadores_ativos (glob sys') =
        (if snd (jogs sys ! i) = J_verificar \<and> eliminado (fst (jogs sys ! i))
         then removeAll (id_jogador (fst (jogs sys ! i))) (jogadores_ativos (glob sys))
         else jogadores_ativos (glob sys))) \<and>
   (passo Coordenador sys = Some sys' \<longrightarrow>
      jogadores_ativos (glob sys') =
        (if coord sys = C_liberar
         then jogadores_ativos (liberar_threads_eliminadas NUM_JOGADORES (glob sys))
         else jogadores_ativos (glob sys))) \<and>
   (passo (Jogador_falha i) sys = Some sys' \<longrightarrow>
      jogadores_ativos (glob sys') =
        (if snd (jogs sys ! i) = J_verificar \<and> eliminado (fst (jogs sys ! i))
         then removeAll (id_jogador (fst (jogs sys ! i))) (jogadores_ativos (glob sys))
         else jogadores_ativos (glob sys)))"
proof (intro conjI impI)
  assume a: "passo (Jogador i) sys = Some sys'"
  then obtain pc j s where
    p: "passo_jogador False (snd (jogs sys ! i)) (fst (jogs sys ! i)) (glob sys) = Some (pc, j, s)"
    and g: "glob sys' = s"
    by (auto split: option.splits if_splits)
  show "jogadores_ativos (glob sys') =
        (if snd (jogs sys ! i) = J_verificar \<and> eliminado (fst (jogs sys ! i))
         then removeAll (id_jogador (fst (jogs sys ! i))) (jogadores_ativos (glob sys))
         else jogadores_ativos (glob sys))"
    using passo_jogador_ativos [OF p] g by simp
next
  assume a: "passo Coordenador sys = Some sys'"
  then obtain pc s where
    p: "passo_coordenador (coord sys) (glob sys) = Some (pc, s)" and g: "glob sys' = s"
    by (auto split: option.splits)
  show "jogadores_ativos (glob sys') =
        (if coord sys = C_liberar
         then jogadores_ativos (liberar_threads_eliminadas NUM_JOGADORES (glob sys))
         else jogadores_ativos (glob sys))"
    using passo_coordenador_ativos [OF p] g by simp
next
  assume a: "passo (Jogador_falha i) sys = Some sys'"
  then obtain pc j s where
    p: "passo_jogador True (snd (jogs sys ! i)) (fst (jogs sys ! i)) (glob sys) = Some (pc, j, s)"
    and g: "glob sys' = s"
    by (auto split: option.splits if_splits)
  show "jogadores_ativos (glob sys') =
        (if snd (jogs sys ! i) = J_verificar \<and> eliminado (fst (jogs sys ! i))
         then removeAll (id_jogador (fst (jogs sys ! i))) (jogadores_ativos (glob sys))
         else jogadores_ativos (glob sys))"
    using passo_jogador_ativos [OF p] g by simp
qed

text \<open>
  A player with its flag set, in front of \<open>verificar_eliminacao\<close>: its step takes id 1 out
  of the list \<open>[1, 2]\<close>.
\<close>

theorem passo_remove_ativos_witness:
  "passo (Jogador 0)
     \<lparr> glob = JogoDasCadeiras 2 (globais 2),
       jogs = [(\<lparr> id_jogador = 1, eliminado = True \<rparr>, J_verificar),
               (\<lparr> id_jogador = 2, eliminado = False \<rparr>, J_espera_tocando)],
       coord = C_liberar \<rparr>
   = Some \<lparr> glob = eliminar_jogador 1 (JogoDasCadeiras 2 (globais 2)),
            jogs = [(\<lparr> id_jogador = 1, eliminado = True \<rparr>, J_espera_tocando),
                    (\<lparr> id_jogador = 2, eliminado = False \<rparr>, J_espera_tocando)],
            coord = C_liberar \<rparr> \<and>
   jogadores_ativos (JogoDasCadeiras 2 (globais 2)) = [1, 2] \<and>
   jogadores_ativos (eliminar_jogador 1 (JogoDasCadeiras 2 (globais 2))) = [2]"
proof -
  let ?sys = "\<lparr> glob = JogoDasCadeiras 2 (globais 2),
       jogs = [(\<lparr> id_jogador = 1, eliminado = True \<rparr>, J_verificar),
               (\<lparr> id_jogador = 2, eliminado = False \<rparr>, J_espera_tocando)],
       coord = C_liberar \<rparr>"
  let ?sys' = "\<lparr> glob = eliminar_jogador 1 (JogoDasCadeiras 2 (globais 2)),
            jogs = [(\<lparr> id_jogador = 1, eliminado = True \<rparr>, J_espera_tocando),
                    (\<lparr> id_jogador = 2, eliminado = False \<rparr>, J_espera_tocando)],
            coord = C_liberar \<rparr>"
  have p: "passo (Jogador 0) ?sys = Some ?sys'"
    by (simp add: verificar_eliminacao_def)
  have a: "jogadores_ativos (JogoDasCadeiras 2 (globais 2)) = [1, 2]"
    by (simp add: JogoDasCadeiras_def globais_def upto_rec1)
  from passo_remove_ativos [of 0 ?sys ?sys'] p a show ?thesis
    by simp
qed

text \<open>
  As the specification words it (only the coordinator removes, the flag of a player
  never does) the statement fails. In the first round as the sleeps intend it, the
  player that finds no chair has removed its own id 4 while the coordinator has not yet
  called \<open>liberar_threads_eliminadas\<close>: no elimination has been printed.
\<close>

theorem verificar_eliminacao_remove:
  "map_option (jogadores_ativos \<circ> glob) (executa escala_rodada1 sistema_inicial) = Some [1, 2, 3] \<and>
   map_option coord (executa escala_rodada1 sistema_inicial) = Some C_liberar \<and>
   map_option (saida \<circ> glob) (executa escala_rodada1 sistema_inicial) = Some [Inicio 4 3, MusicaParou]"
  by code_simp

subsection \<open>Number of rounds\<close>

text \<open>
  Claim C3, amended: for every number \<open>n \<ge> 2\<close> of participants, if in every round the
  attempts fall into the settle time, each attempting thread attempts once and belongs
  to a player still active at the start of the round (\<open>em_tempo\<close>), then
  \<open>iniciar_jogo\<close> ends after exactly \<open>n - 1\<close> rounds, the active list is one id shorter
  after each round (by the failing player's own removal or by the coordinator's), and
  exactly one id is active at the end.
\<close>

theorem iniciar_jogo_em_tempo:
  assumes "2 \<le> n" and "em_tempo n pss (partida n)" and "nat n - 1 \<le> length pss"
  shows "\<exists>fim hist. iniciar_jogo n pss (partida n) = Some (fim, hist) \<and>
           length hist = nat n - 1 \<and>
           (\<forall>k < length hist. length (hist ! k) = nat n - 1 - k) \<and>
           length (jogadores_ativos (fst fim)) = 1 \<and> \<not> jogo_ativo (fst fim)"
proof -
  from assms(1) have n: "0 \<le> n" and m: "nat n = Suc (nat n - 1)" by auto
  have l: "length (jogadores_ativos (fst (partida n))) = Suc (nat n - 1)"
    using partida_coerente(2) [OF n] m by simp
  from jogo_em_tempo [OF partida_coerente(1) [OF n] assms(2) l assms(3)]
  obtain fim hist where r: "iniciar_jogo n pss (partida n) = Some (fim, hist)"
    and h: "map length hist = rev [1 ..< Suc (nat n - 1)]"
    and f: "length (jogadores_ativos (fst fim)) = 1" "\<not> jogo_ativo (fst fim)"
    by blast
  from h have lh: "length hist = nat n - 1"
    by (metis diff_Suc_1 length_map length_rev length_upt)
  have "length (hist ! k) = nat n - 1 - k" if "k < length hist" for k
  proof -
    have "length (hist ! k) = map length hist ! k" using that by simp
    also have "\<dots> = rev [1 ..< Suc (nat n - 1)] ! k" by (simp only: h)
    also have "\<dots> = nat n - 1 - k"
      using that lh by (simp add: rev_nth)
    finally show ?thesis .
  qed
  with r lh f show ?thesis by blast
qed

text \<open>
  Four participants: all attempt in the first round, thread 1 alone in the second, none
  in the third.
\<close>

theorem iniciar_jogo_em_tempo_witness:
  "(2::int) \<le> 4 \<and> em_tempo 4 [[0, 1, 2, 3], [1], []] (partida 4) \<and>
   nat 4 - 1 \<le> length [[0, 1, 2, 3], [1], [] :: nat list] \<and>
   (\<exists>fim hist. iniciar_jogo 4 [[0, 1, 2, 3], [1], []] (partida 4) = Some (fim, hist) \<and>
           length hist = nat 4 - 1 \<and>
           (\<forall>k < length hist. length (hist ! k) = nat 4 - 1 - k) \<and>
           length (jogadores_ativos (fst fim)) = 1 \<and> \<not> jogo_ativo (fst fim))"
proof -
  have h: "em_tempo 4 [[0, 1, 2, 3], [1], []] (partida 4)"
    by code_simp
  show ?thesis
    using h iniciar_jogo_em_tempo [OF _ h] by simp
qed

text \<open>
  Without the assumption the statement fails. Under \<open>escala_dupla\<close> the four threads
  attempt again in the second round, the thread of the eliminated player 4 first: it and
  player 1 take the two chairs, players 2 and 3 both fail and remove themselves. The
  game of four ends after two rounds, the second of which removed two ids.
\<close>

theorem iniciar_jogo_duas_rodadas:
  "map_option (saida \<circ> glob) (executa escala_dupla sistema_inicial) =
     Some [Inicio 4 3, MusicaParou, CadeiraOcupada 1 1, CadeiraOcupada 2 2,
           CadeiraOcupada 3 3, Eliminado (- 1), Inicio 3 2, MusicaParou,
           CadeiraOcupada 1 4, CadeiraOcupada 2 1, Eliminado (- 1), Vencedor 1] \<and>
   map_option coord (executa escala_dupla sistema_inicial) = Some C_fim \<and>
   map_option (map snd \<circ> jogs) (executa escala_dupla sistema_inicial)
     = Some [J_fim, J_fim, J_fim, J_fim]"
  by code_simp

subsection \<open>Seated players and chairs\<close>




subsection \<open>No unseated player, empty active list\<close>

text \<open>
  Claim C5, amended: the coordinator has no abort. When every active id is seated,
  \<open>liberar_threads_eliminadas\<close> removes nobody, prints the elimination of \<open>-1\<close> and the
  coordinator goes on to resume the music; when the active list is empty the loop ends,
  no winner is printed and the coordinator finishes; from every statement but the last
  the coordinator can take its next step.
\<close>

theorem coordenador_nao_aborta:
  "(list_all (\<lambda>x. x \<in> fst ` set (cadeiras_ocupadas s)) (jogadores_ativos s) \<longrightarrow>
      passo_coordenador C_liberar s = Some (C_retomar, liberar_threads_eliminadas NUM_JOGADORES s) \<and>
      jogadores_ativos (liberar_threads_eliminadas NUM_JOGADORES s) = jogadores_ativos s \<and>
      last (saida (liberar_threads_eliminadas NUM_JOGADORES s)) = Eliminado (- 1)) \<and>
   (jogadores_ativos s = [] \<longrightarrow>
      passo_coordenador C_while s = Some (C_encerrar, s) \<and>
      passo_coordenador C_vencedor s = Some (C_fim, s)) \<and>
   (pc \<noteq> C_fim \<longrightarrow> passo_coordenador pc s \<noteq> None)"
proof (intro conjI impI)
  assume "list_all (\<lambda>x. x \<in> fst ` set (cadeiras_ocupadas s)) (jogadores_ativos s)"
  then have f: "find (\<lambda>x. x \<notin> fst ` set (cadeiras_ocupadas s)) (jogadores_ativos s) = None"
    by (simp add: find_None_iff list_all_iff)
  show "passo_coordenador C_liberar s = Some (C_retomar, liberar_threads_eliminadas NUM_JOGADORES s)"
    by simp
  show "jogadores_ativos (liberar_threads_eliminadas NUM_JOGADORES s) = jogadores_ativos s"
    by (simp add: liberar_ativos f)
  show "last (saida (liberar_threads_eliminadas NUM_JOGADORES s)) = Eliminado (- 1)"
    by (simp add: liberar_saida f)
next
  assume "jogadores_ativos s = []"
  then show "passo_coordenador C_while s = Some (C_encerrar, s)"
    and "passo_coordenador C_vencedor s = Some (C_fim, s)"
    by (simp_all add: anunciar_vencedor_def)
next
  assume "pc \<noteq> C_fim"
  then show "passo_coordenador pc s \<noteq> None" by (cases pc) simp_all
qed

text \<open>
  Three active ids, all seated; and the state of the globals, whose active list is empty.
\<close>

theorem coordenador_nao_aborta_witness:
  "list_all (\<lambda>x. x \<in> fst ` set [(1, 1), (2, 2), (3, 3 :: int)]) [1, 2, 3 :: int] \<and>
   jogadores_ativos
     (liberar_threads_eliminadas NUM_JOGADORES
        ((globais 4)\<lparr> jogadores_ativos := [1, 2, 3],
                       cadeiras_ocupadas := [(1, 1), (2, 2), (3, 3)] \<rparr>)) = [1, 2, 3] \<and>
   last (saida
     (liberar_threads_eliminadas NUM_JOGADORES
        ((globais 4)\<lparr> jogadores_ativos := [1, 2, 3],
                       cadeiras_ocupadas := [(1, 1), (2, 2), (3, 3)] \<rparr>))) = Eliminado (- 1) \<and>
   passo_coordenador C_while (globais 4) = Some (C_encerrar, globais 4) \<and>
   passo_coordenador C_vencedor (globais 4) = Some (C_fim, globais 4) \<and>
   passo_coordenador C_liberar (globais 4) \<noteq> None"
proof -
  let ?s = "(globais 4)\<lparr> jogadores_ativos := [1, 2, 3],
                         cadeiras_ocupadas := [(1, 1), (2, 2), (3, 3)] \<rparr>"
  have a: "list_all (\<lambda>x. x \<in> fst ` set (cadeiras_ocupadas ?s)) (jogadores_ativos ?s)"
    by simp
  have b: "jogadores_ativos (globais 4) = []"
    by (simp add: globais_def)
  from coordenador_nao_aborta [of ?s C_liberar] a
    coordenador_nao_aborta [of "globais 4" C_liberar] b
  show ?thesis by simp
qed

text \<open>
  The statement of the specification (the game is aborted with a diagnostic) fails: in
  the first round as the sleeps intend it the coordinator finds no unseated active
  player, prints the elimination of \<open>-1\<close> and starts the second round.
\<close>

theorem coordenador_segue:
  "map_option (saida \<circ> glob) (executa escala_segue sistema_inicial) =
     Some [Inicio 4 3, MusicaParou, CadeiraOcupada 1 1, CadeiraOcupada 2 2,
           CadeiraOcupada 3 3, Eliminado (- 1), Inicio 3 2] \<and>
   map_option coord (executa escala_segue sistema_inicial) = Some C_parar_musica"
  by code_simp

subsection \<open>An attempt to sit\<close>




subsection \<open>The start of a round\<close>

text \<open>
  Claim C7, amended: \<open>iniciar_rodada\<close> sets the number of chairs to the size of the
  active list minus one and empties the list of seated players; it leaves the semaphore
  as it is. The semaphore is built by \<open>iniciar_jogo\<close> at the end of the round before
  (lines 183 and 184), and by the initialiser of the global for the first round. When
  the coordinator goes from there to \<open>parar_musica\<close> with no step of a player in
  between, the permits equal the chairs and nobody is seated when the music stops.
\<close>

theorem iniciar_rodada_sem_recriar:
  assumes "coord sys = C_recriar" and "1 < length (jogadores_ativos (glob sys))"
  shows "cadeira_sem (iniciar_rodada s) = cadeira_sem s \<and>
         cadeiras (iniciar_rodada s) = int (length (jogadores_ativos s)) - 1 \<and>
         cadeiras_ocupadas (iniciar_rodada s) = [] \<and>
         (\<exists>sys'. executa [Coordenador, Coordenador, Coordenador] sys = Some sys' \<and>
            coord sys' = C_parar_musica \<and>
            cadeiras (glob sys') = int (length (jogadores_ativos (glob sys))) - 1 \<and>
            cadeira_sem (glob sys') = cadeiras (glob sys') \<and>
            cadeiras_ocupadas (glob sys') = []) \<and>
         (\<exists>sys'. executa [Coordenador, Coordenador] sistema_inicial = Some sys' \<and>
            coord sys' = C_parar_musica \<and>
            cadeiras (glob sys') = NUM_JOGADORES - 1 \<and>
            cadeira_sem (glob sys') = cadeiras (glob sys') \<and>
            cadeiras_ocupadas (glob sys') = [])"
proof -
  have "\<exists>sys'. executa [Coordenador, Coordenador] sistema_inicial = Some sys' \<and>
            coord sys' = C_parar_musica \<and>
            cadeiras (glob sys') = NUM_JOGADORES - 1 \<and>
            cadeira_sem (glob sys') = cadeiras (glob sys') \<and>
            cadeiras_ocupadas (glob sys') = []"
    by (simp add: sistema_inicial_def NUM_JOGADORES_def JogoDasCadeiras_def globais_def
        iniciar_rodada_def)
  then show ?thesis
    using assms by (simp add: iniciar_rodada_def recriar_semaforo_def)
qed

text \<open>
  The initial system with the coordinator placed at line 183, and a state with seven
  permits.
\<close>

theorem iniciar_rodada_sem_recriar_witness:
  "coord (sistema_inicial\<lparr> coord := C_recriar \<rparr>) = C_recriar \<and>
   1 < length (jogadores_ativos (glob (sistema_inicial\<lparr> coord := C_recriar \<rparr>))) \<and>
   cadeira_sem (iniciar_rodada ((globais 4)\<lparr> cadeira_sem := 7 \<rparr>)) = 7 \<and>
   (\<exists>sys'. executa [Coordenador, Coordenador, Coordenador] (sistema_inicial\<lparr> coord := C_recriar \<rparr>)
              = Some sys' \<and>
            coord sys' = C_parar_musica \<and> cadeira_sem (glob sys') = 3 \<and> cadeiras (glob sys') = 3)"
proof -
  have a: "coord (sistema_inicial\<lparr> coord := C_recriar \<rparr>) = C_recriar" by simp
  have l: "length (jogadores_ativos (glob (sistema_inicial\<lparr> coord := C_recriar \<rparr>))) = 4"
    by (simp add: sistema_inicial_def NUM_JOGADORES_def JogoDasCadeiras_def globais_def)
  then have b: "1 < length (jogadores_ativos (glob (sistema_inicial\<lparr> coord := C_recriar \<rparr>)))"
    by simp
  note t = iniciar_rodada_sem_recriar [OF a b, where s = "(globais 4)\<lparr> cadeira_sem := 7 \<rparr>"]
  from t have "cadeira_sem (iniciar_rodada ((globais 4)\<lparr> cadeira_sem := 7 \<rparr>))
                 = cadeira_sem ((globais 4)\<lparr> cadeira_sem := 7 \<rparr>)"
    by (rule conjunct1)
  then have c: "cadeira_sem (iniciar_rodada ((globais 4)\<lparr> cadeira_sem := 7 \<rparr>)) = 7"
    by simp
  from t obtain sys' where
    e: "executa [Coordenador, Coordenador, Coordenador] (sistema_inicial\<lparr> coord := C_recriar \<rparr>)
          = Some sys'" "coord sys' = C_parar_musica"
    and v: "cadeiras (glob sys')
          = int (length (jogadores_ativos (glob (sistema_inicial\<lparr> coord := C_recriar \<rparr>)))) - 1"
      "cadeira_sem (glob sys') = cadeiras (glob sys')"
    by blast
  from v l have "cadeira_sem (glob sys') = 3 \<and> cadeiras (glob sys') = 3" by simp
  with e have "\<exists>sys'. executa [Coordenador, Coordenador, Coordenador]
                        (sistema_inicial\<lparr> coord := C_recriar \<rparr>) = Some sys' \<and>
            coord sys' = C_parar_musica \<and> cadeira_sem (glob sys') = 3 \<and> cadeiras (glob sys') = 3"
    by blast
  with a b c show ?thesis by blast
qed

text \<open>
  That \<open>iniciar_rodada\<close> rebuilds the semaphore fails. Under \<open>escala_atrasada\<close> player 0
  takes a permit of the new semaphore before the second round starts; the coordinator
  then calls \<open>iniciar_rodada\<close>, which sets two chairs and leaves the one permit.
\<close>

theorem iniciar_rodada_sem_semaforo:
  "map_option coord (executa escala_atrasada sistema_inicial) = Some C_iniciar_rodada \<and>
   map_option (cadeira_sem \<circ> glob) (executa escala_atrasada sistema_inicial) = Some 1 \<and>
   map_option (cadeira_sem \<circ> iniciar_rodada \<circ> glob) (executa escala_atrasada sistema_inicial) = Some 1 \<and>
   map_option (cadeiras \<circ> iniciar_rodada \<circ> glob) (executa escala_atrasada sistema_inicial) = Some 2"
  by code_simp

subsection \<open>The new semaphore\<close>




subsection \<open>An eliminated id stays out\<close>

text \<open>
  Claim C9: eliminating an id a second time changes nothing; after its elimination the
  id is not in the active list, and it is in the active list of no state that any
  schedule reaches from there.
\<close>

theorem eliminar_jogador_once:
  "eliminar_jogador x (eliminar_jogador x s) = eliminar_jogador x s \<and>
   x \<notin> set (jogadores_ativos (eliminar_jogador x s)) \<and>
   (x \<notin> set (jogadores_ativos (glob sys)) \<and> executa ts sys = Some sys'
      \<longrightarrow> x \<notin> set (jogadores_ativos (glob sys')))"
  using executa_subset [of ts sys sys']
  by (auto simp: eliminar_jogador_def)

text \<open>
  Id 4 eliminated from the initial system, then a step of the coordinator.
\<close>

theorem eliminar_jogador_once_witness:
  "4 \<notin> set (jogadores_ativos (glob (sistema_inicial\<lparr> glob := eliminar_jogador 4 (glob sistema_inicial) \<rparr>))) \<and>
   executa [Coordenador] (sistema_inicial\<lparr> glob := eliminar_jogador 4 (glob sistema_inicial) \<rparr>)
     = Some (sistema_inicial\<lparr> glob := eliminar_jogador 4 (glob sistema_inicial),
                              coord := C_iniciar_rodada \<rparr>) \<and>
   4 \<notin> set (jogadores_ativos (glob (sistema_inicial\<lparr> glob := eliminar_jogador 4 (glob sistema_inicial),
                              coord := C_iniciar_rodada \<rparr>))) \<and>
   jogadores_ativos (eliminar_jogador 4 (glob sistema_inicial)) = [1, 2, 3]"
proof -
  let ?S = "sistema_inicial\<lparr> glob := eliminar_jogador 4 (glob sistema_inicial) \<rparr>"
  have l: "jogadores_ativos (eliminar_jogador 4 (glob sistema_inicial)) = [1, 2, 3]"
    by (simp add: sistema_inicial_def NUM_JOGADORES_def JogoDasCadeiras_def globais_def
        eliminar_jogador_def upto_rec1)
  have e: "executa [Coordenador] ?S = Some (?S\<lparr> coord := C_iniciar_rodada \<rparr>)"
    using l by (simp add: sistema_inicial_def)
  from eliminar_jogador_once
      [where x = 4 and s = "glob sistema_inicial" and sys = ?S and ts = "[Coordenador]"
         and sys' = "?S\<lparr> coord := C_iniciar_rodada \<rparr>"]
    e l
  show ?thesis by simp
qed

subsection \<open>The resolution of a round by the coordinator\<close>

text \<open>
  Claim C10: \<open>liberar_threads_eliminadas\<close> removes the first id of the active list, in
  its stored order, that is not among the seated ids, and prints it as eliminated; when
  every active id is seated it removes nobody and prints \<open>-1\<close>. At most one id leaves
  the active list.
\<close>

theorem liberar_threads_eliminadas_resolve:
  "(case find (\<lambda>x. x \<notin> fst ` set (cadeiras_ocupadas s)) (jogadores_ativos s) of
      None \<Rightarrow>
        jogadores_ativos (liberar_threads_eliminadas nj s) = jogadores_ativos s \<and>
        last (saida (liberar_threads_eliminadas nj s)) = Eliminado (- 1)
    | Some x \<Rightarrow>
        jogadores_ativos (liberar_threads_eliminadas nj s) = removeAll x (jogadores_ativos s) \<and>
        last (saida (liberar_threads_eliminadas nj s)) = Eliminado x) \<and>
   card (set (jogadores_ativos s) - set (jogadores_ativos (liberar_threads_eliminadas nj s))) \<le> 1"
proof -
  have "card (set xs - set (removeAll x xs)) \<le> 1" for x :: int and xs
  proof -
    have "set xs - set (removeAll x xs) \<subseteq> {x}" by auto
    then have "card (set xs - set (removeAll x xs)) \<le> card {x}"
      by (intro card_mono) simp_all
    then show ?thesis by simp
  qed
  then show ?thesis
    by (simp add: liberar_ativos liberar_saida split: option.split)
qed

text \<open>
  Ids 1 and 3 seated of four: id 2 goes. Both of two seated: nobody goes.
\<close>

theorem liberar_threads_eliminadas_resolve_witness:
  "jogadores_ativos (liberar_threads_eliminadas 4
     ((globais 4)\<lparr> jogadores_ativos := [1, 2, 3, 4], cadeiras_ocupadas := [(3, 3), (1, 1)] \<rparr>))
     = [1, 3, 4] \<and>
   last (saida (liberar_threads_eliminadas 4
     ((globais 4)\<lparr> jogadores_ativos := [1, 2, 3, 4], cadeiras_ocupadas := [(3, 3), (1, 1)] \<rparr>)))
     = Eliminado 2 \<and>
   jogadores_ativos (liberar_threads_eliminadas 4
     ((globais 4)\<lparr> jogadores_ativos := [1, 2], cadeiras_ocupadas := [(2, 2), (1, 1)] \<rparr>))
     = [1, 2] \<and>
   last (saida (liberar_threads_eliminadas 4
     ((globais 4)\<lparr> jogadores_ativos := [1, 2], cadeiras_ocupadas := [(2, 2), (1, 1)] \<rparr>)))
     = Eliminado (- 1)"
  using liberar_threads_eliminadas_resolve
      [where s = "(globais 4)\<lparr> jogadores_ativos := [1, 2, 3, 4],
                                 cadeiras_ocupadas := [(3, 3), (1, 1)] \<rparr>" and nj = 4]
    liberar_threads_eliminadas_resolve
      [where s = "(globais 4)\<lparr> jogadores_ativos := [1, 2],
                                 cadeiras_ocupadas := [(2, 2), (1, 1)] \<rparr>" and nj = 4]
  by simp

end
